theory Spec2Isabelle
  imports Complex_Main "HOL-Library.Monad_Syntax"
begin

section \<open>Numbers: doubles and their arithmetic\<close>

text \<open>
  A JavaScript number is an IEEE double. A number of the model is a rational that
  stands for the finite double nearest to it: the double's exact value, or a decimal
  that reads as that double, the way the source writes \<open>0.0005\<close> and JSON writes the
  fields of the payload. Rounding to the nearest double keeps the order, and a double
  has one shortest decimal, so the comparisons of the source are made on the rationals.
  Arithmetic and printing work on the doubles: \<open>*\<close> and \<open>/\<close> bring their operands to
  the nearest double and round the exact result to the nearest double, a tie going to
  the even significand, and a result beyond the largest double is an infinity.
  \<open>NaN\<close> is not modelled, and a number of the model is never an infinity.
\<close>

type_synonym number = rat

text \<open>The number of binary digits of a positive integer.\<close>

function bit_length :: "int \<Rightarrow> int" where
  "bit_length k = (if k \<le> 0 then 0 else 1 + bit_length (k div 2))"
  by pat_completeness auto
termination
  by (relation "measure nat") auto

declare bit_length.simps [simp del]

definition pow2 :: "int \<Rightarrow> rat" where
  "pow2 e = (if 0 \<le> e then 2 ^ nat e else 1 / 2 ^ nat (- e))"

text \<open>The binary exponent of a rational that is not zero: \<open>2^e \<le> |x| < 2^(e+1)\<close>.\<close>

definition binary_exponent :: "rat \<Rightarrow> int" where
  "binary_exponent x =
     (case quotient_of x of (p, q) \<Rightarrow>
        let e = bit_length \<bar>p\<bar> - bit_length q
        in if pow2 e \<le> \<bar>x\<bar> then e else e - 1)"

definition round_half_even :: "rat \<Rightarrow> int" where
  "round_half_even y =
     (let n = \<lfloor>y\<rfloor>; r = y - of_int n
      in if r < 1 / 2 then n else if 1 / 2 < r then n + 1 else if n mod 2 = 0 then n else n + 1)"

text \<open>
  The double nearest to a rational: 53 significant binary digits, the exponent not
  below -1022 (below it the doubles are subnormal, all with the spacing \<open>2^-1074\<close>).
  The exponent is not bounded above here; \<open>to_double\<close> turns what is beyond the
  largest double into an infinity.
\<close>

definition nearest_double :: "rat \<Rightarrow> rat" where
  "nearest_double x =
     (if x = 0 then 0
      else let q = pow2 (max (binary_exponent x) (- 1022) - 52)
           in of_int (round_half_even (x / q)) * q)"

datatype double = Finite number | PlusInfinity | MinusInfinity

definition to_double :: "rat \<Rightarrow> double" where
  "to_double x =
     (let y = nearest_double x
      in if 2 ^ 1024 \<le> y then PlusInfinity else if y \<le> - (2 ^ 1024) then MinusInfinity
         else Finite y)"

text \<open>\<open>a * b\<close> and \<open>a / b\<close> of the source, for a divisor that is not zero.\<close>

definition mul_double :: "number \<Rightarrow> number \<Rightarrow> double" where
  "mul_double a b = to_double (nearest_double a * nearest_double b)"

definition div_double :: "number \<Rightarrow> number \<Rightarrow> double" where
  "div_double a b = to_double (nearest_double a / nearest_double b)"

section \<open>The host's number formatting\<close>

text \<open>The decimal digits of a natural number, most significant first.\<close>

fun dec_digits :: "nat \<Rightarrow> string" where
  "dec_digits n =
     (if n < 10 then [''0123456789'' ! n]
      else dec_digits (n div 10) @ [''0123456789'' ! (n mod 10)])"

declare dec_digits.simps [simp del]

text \<open>
  \<open>Number::toString\<close> for a magnitude of at least \<open>10^21\<close> prints exponent notation:
  the shortest significand \<open>s\<close> that reads back as the same double, and the decimal
  exponent \<open>e\<close>. The pair \<open>(s, e)\<close> is taken from a parameter \<open>shortest\<close> of the host;
  the layout of the text is the standard's: one digit, a point when more digits
  follow, \<open>e+\<close>, the exponent.
\<close>

definition exponent_notation :: "nat \<times> nat \<Rightarrow> string" where
  "exponent_notation se =
     (case dec_digits (fst se) of
        [] \<Rightarrow> []
      | [d] \<Rightarrow> d # ''e+'' @ dec_digits (snd se)
      | d # ds \<Rightarrow> d # ''.'' @ ds @ ''e+'' @ dec_digits (snd se))"

text \<open>
  \<open>Number.prototype.toFixed\<close>, steps 9 to 12 of the standard, for \<open>f\<close> fraction
  digits, on the exact value of the receiver's double: the sign is taken off first
  (so a negative number that rounds to zero keeps its \<open>-\<close>), the magnitude is rounded
  to the nearest multiple of \<open>10^-f\<close> with a tie going to the larger one, the digits
  are padded with zeros to \<open>f + 1\<close> places and the point is put before the last \<open>f\<close>.
\<close>

definition padded :: "number \<Rightarrow> nat \<Rightarrow> string" where
  "padded x f =
     (let n = nat \<lfloor>x * 10 ^ f + 1 / 2\<rfloor>;
          m = dec_digits n
      in if f \<noteq> 0 \<and> length m \<le> f then replicate (f + 1 - length m) CHR ''0'' @ m else m)"

definition fixed_digits :: "number \<Rightarrow> nat \<Rightarrow> string" where
  "fixed_digits x f =
     (let m = padded x f
      in if f \<noteq> 0 then take (length m - f) m @ ''.'' @ drop (length m - f) m else m)"

definition fixed_notation :: "number \<Rightarrow> nat \<Rightarrow> string" where
  "fixed_notation x f =
     (let y = nearest_double x
      in (if y < 0 then ''-'' else '''') @ fixed_digits \<bar>y\<bar> f)"

definition toFixed_text :: "(number \<Rightarrow> nat \<times> nat) \<Rightarrow> number \<Rightarrow> nat \<Rightarrow> string" where
  "toFixed_text shortest x f =
     (let y = nearest_double x
      in if 10 ^ 21 \<le> \<bar>y\<bar>
         then (if y < 0 then ''-'' else '''') @ exponent_notation (shortest \<bar>y\<bar>)
         else fixed_notation x f)"

text \<open>
  \<open>toFixed\<close> raises a RangeError when the number of fraction digits is above 100;
  \<open>None\<close> is that exception. On an infinity it prints the infinity's name, after
  that check.
\<close>

definition toFixed :: "(number \<Rightarrow> nat \<times> nat) \<Rightarrow> number \<Rightarrow> nat \<Rightarrow> string option" where
  "toFixed shortest x f = (if 100 < f then None else Some (toFixed_text shortest x f))"

definition toFixed_double_text :: "(number \<Rightarrow> nat \<times> nat) \<Rightarrow> double \<Rightarrow> nat \<Rightarrow> string" where
  "toFixed_double_text shortest y f =
     (case y of
        Finite x \<Rightarrow> toFixed_text shortest x f
      | PlusInfinity \<Rightarrow> ''Infinity''
      | MinusInfinity \<Rightarrow> ''-Infinity'')"

definition toFixed_double :: "(number \<Rightarrow> nat \<times> nat) \<Rightarrow> double \<Rightarrow> nat \<Rightarrow> string option" where
  "toFixed_double shortest y f =
     (if 100 < f then None else Some (toFixed_double_text shortest y f))"

section \<open>lib/utils.js\<close>

text \<open>
  \<open>formatNumber(num, decimals = 2)\<close> and \<open>formatPercent(num, decimals = 4)\<close>. A caller
  that leaves \<open>decimals\<close> out passes the default, written out at each call below.
\<close>

definition formatNumber :: "(number \<Rightarrow> nat \<times> nat) \<Rightarrow> number \<Rightarrow> nat \<Rightarrow> string option" where
  "formatNumber shortest num decimals =
     (if num \<ge> 10 ^ 9 then
        do { t \<leftarrow> toFixed_double shortest (div_double num (10 ^ 9)) decimals; Some (t @ ''B'') }
      else if num \<ge> 10 ^ 6 then
        do { t \<leftarrow> toFixed_double shortest (div_double num (10 ^ 6)) decimals; Some (t @ ''M'') }
      else if num \<ge> 10 ^ 3 then
        do { t \<leftarrow> toFixed_double shortest (div_double num (10 ^ 3)) decimals; Some (t @ ''K'') }
      else toFixed shortest num decimals)"

definition formatPercent :: "(number \<Rightarrow> nat \<times> nat) \<Rightarrow> number \<Rightarrow> nat \<Rightarrow> string option" where
  "formatPercent shortest num decimals =
     do { t \<leftarrow> toFixed_double shortest (mul_double num 100) decimals; Some (t @ ''%'') }"

section \<open>The badge ladders of the dashboard\<close>

definition getFundingBadgeVariant :: "number \<Rightarrow> string" where
  "getFundingBadgeVariant fundingRate =
     (if fundingRate > 5 / 10000 then ''success''
      else if fundingRate > 1 / 10000 then ''warning''
      else if fundingRate < - (1 / 10000) then ''destructive''
      else ''secondary'')"

definition getPriceChangeBadgeVariant :: "number \<Rightarrow> string" where
  "getPriceChangeBadgeVariant priceChange =
     (if priceChange > 5 then ''success''
      else if priceChange > 0 then ''warning''
      else if priceChange < - 5 then ''destructive''
      else ''secondary'')"

section \<open>The backend's payload and the outcome of a request\<close>

text \<open>A JSON value, as the response body or a key of it may hold.\<close>

datatype json =
  JNull
| JBool bool
| JNumber number
| JString string
| JArray "json list"
| JObject "(string \<times> json) list"

text \<open>
  The JSON body of \<open>GET /api/funding-arbitrage\<close>. A key that may be absent is an
  option; \<open>error_text\<close> is the key \<open>error\<close>, which the component reads without looking
  at its type. A market row has the fields of the summary object
  \<open>highest_funding_rate\<close> and five more.
\<close>

record Summary =
  symbol :: string
  funding_rate :: number

record MarketRow = Summary +
  mark_price :: number
  open_interest :: number
  day_volume :: number
  price_change_24h :: number
  premium :: number

record DashboardSnapshot =
  success :: bool
  error_text :: "json option"
  total_markets :: int
  filtered_markets :: int
  highest_funding_rate :: "Summary option"
  markets :: "MarketRow list option"

text \<open>
  What the \<open>catch\<close> block reads from the thrown value: \<open>err.response?.data?.detail\<close>
  (each link may be missing) and \<open>err.message\<close>, each whatever value is there.
\<close>

record ErrorBody =
  detail :: "json option"

record ErrorResponse =
  response_data :: "ErrorBody option"

record Thrown =
  response :: "ErrorResponse option"
  message :: "json option"

datatype outcome = Resolved DashboardSnapshot | Rejected Thrown

text \<open>
  Truthiness of a value that may be missing, and \<open>a || b\<close>: the left operand when it
  is truthy, the right one otherwise. Missing, \<open>null\<close>, \<open>false\<close>, zero and the empty
  string are falsy; every array and every object is truthy.
\<close>

definition truthy :: "json option \<Rightarrow> bool" where
  "truthy v =
     (case v of
        None \<Rightarrow> False
      | Some JNull \<Rightarrow> False
      | Some (JBool b) \<Rightarrow> b
      | Some (JNumber n) \<Rightarrow> nearest_double n \<noteq> 0
      | Some (JString t) \<Rightarrow> t \<noteq> []
      | Some (JArray items) \<Rightarrow> True
      | Some (JObject members) \<Rightarrow> True)"

definition js_or :: "json option \<Rightarrow> json option \<Rightarrow> json option" where
  "js_or a b = (if truthy a then a else b)"

section \<open>The state of the dashboard and \<open>fetchData\<close>\<close>

text \<open>
  The five \<open>useState\<close> cells. \<open>error\<close> holds whatever \<open>setError\<close> was given (none is
  \<open>null\<close>); a time is what \<open>new Date()\<close> read, in milliseconds.
\<close>

record ViewState =
  data :: "DashboardSnapshot option"
  loading :: bool
  error :: "json option"
  lastUpdated :: "nat option"
  autoRefresh :: bool

text \<open>
  \<open>fetchData\<close> runs up to its \<open>await\<close> when it is called (\<open>fetchData_begin\<close>) and
  from the \<open>await\<close> to the end of \<open>finally\<close> when the request settles
  (\<open>fetchData_settle\<close>, with the outcome of the request and the clock's reading at
  that time). Between the two the component handles other events.
\<close>

definition fetchData_begin :: "ViewState \<Rightarrow> ViewState" where
  "fetchData_begin s = s\<lparr>loading := True, error := None\<rparr>"

definition fetchData_settle :: "outcome \<Rightarrow> nat \<Rightarrow> ViewState \<Rightarrow> ViewState" where
  "fetchData_settle oc now s =
     (let s1 =
        (case oc of
           Resolved d \<Rightarrow>
             if success d then s\<lparr>data := Some d, lastUpdated := Some now\<rparr>
             else s\<lparr>error := js_or (error_text d) (Some (JString ''Failed to fetch data''))\<rparr>
         | Rejected err \<Rightarrow>
             s\<lparr>error :=
                 js_or
                   (js_or (Option.bind (Option.bind (response err) response_data) detail)
                      (message err))
                   (Some (JString ''Failed to fetch data''))\<rparr>)
      in s1\<lparr>loading := False\<rparr>)"

section \<open>The mounted component: effects, the interval and the events\<close>

text \<open>
  Besides its state the mounted component has the host's active intervals (by id), the
  interval id held by the cleanup function that the second effect returned last (none
  when the effect returned early), the next id \<open>setInterval\<close> hands out, the log of
  the calls of \<open>fetchData\<close> with what made each, the number of requests that have
  settled, and the host's clock in milliseconds since the mount, which only runs
  forward.
\<close>

datatype initiator = OnMount | OnClick | OnInterval nat

record Component =
  view :: ViewState
  intervals :: "nat list"
  cleanup :: "nat option"
  next_interval :: nat
  started :: "initiator list"
  settled :: nat
  clock :: nat

definition call_fetchData :: "initiator \<Rightarrow> Component \<Rightarrow> Component" where
  "call_fetchData who c = c\<lparr>view := fetchData_begin (view c), started := started c @ [who]\<rparr>"

definition clearInterval :: "nat \<Rightarrow> Component \<Rightarrow> Component" where
  "clearInterval i c = c\<lparr>intervals := removeAll i (intervals c)\<rparr>"

definition setInterval :: "Component \<Rightarrow> nat \<times> Component" where
  "setInterval c =
     (next_interval c,
      c\<lparr>intervals := intervals c @ [next_interval c], next_interval := Suc (next_interval c)\<rparr>)"

text \<open>
  The effect on \<open>[autoRefresh]\<close>: an early return without a cleanup when auto-refresh
  is off, else a new interval and a cleanup that clears it. React runs the cleanup of
  the last run before it runs the effect again.
\<close>

definition autoRefresh_effect :: "Component \<Rightarrow> Component" where
  "autoRefresh_effect c =
     (if \<not> autoRefresh (view c) then c\<lparr>cleanup := None\<rparr>
      else (case setInterval c of (interval, c') \<Rightarrow> c'\<lparr>cleanup := Some interval\<rparr>))"

definition run_cleanup :: "Component \<Rightarrow> Component" where
  "run_cleanup c = (case cleanup c of None \<Rightarrow> c | Some interval \<Rightarrow> clearInterval interval c)"

definition setAutoRefresh :: "bool \<Rightarrow> Component \<Rightarrow> Component" where
  "setAutoRefresh b c = c\<lparr>view := (view c)\<lparr>autoRefresh := b\<rparr>\<rparr>"

text \<open>Mounting: the initial values of the state, then the two effects in their order.\<close>

definition initial_view :: ViewState where
  "initial_view =
     \<lparr>data = None, loading = True, error = None, lastUpdated = None, autoRefresh = True\<rparr>"

definition mount :: Component where
  "mount =
     autoRefresh_effect
       (call_fetchData OnMount
          \<lparr>view = initial_view, intervals = [], cleanup = None, next_interval = 1,
           started = [], settled = 0, clock = 0\<rparr>)"

text \<open>
  The events of a mounted component: a click on Refresh or Retry (both call
  \<open>fetchData\<close>), a click on the Auto button, the period of interval \<open>i\<close> running out
  (the host calls back active intervals only), a request settling (only when one is
  in flight; \<open>new Date()\<close> then reads the clock), and time passing. The buttons are
  taken to be clickable in every state, which allows more runs than the screens do.
\<close>

datatype event =
  ClickFetch
| ClickAuto
| IntervalFires nat
| Settles outcome
| Elapse nat

definition step :: "event \<Rightarrow> Component \<Rightarrow> Component" where
  "step e c =
     (case e of
        ClickFetch \<Rightarrow> call_fetchData OnClick c
      | ClickAuto \<Rightarrow>
          autoRefresh_effect (run_cleanup (setAutoRefresh (\<not> autoRefresh (view c)) c))
      | IntervalFires i \<Rightarrow>
          if i \<in> set (intervals c) then call_fetchData (OnInterval i) c else c
      | Settles oc \<Rightarrow>
          if settled c < length (started c)
          then c\<lparr>view := fetchData_settle oc (clock c) (view c), settled := Suc (settled c)\<rparr>
          else c
      | Elapse ms \<Rightarrow> c\<lparr>clock := clock c + ms\<rparr>)"

definition run :: "event list \<Rightarrow> Component \<Rightarrow> Component" where
  "run es c = fold step es c"

text \<open>An event that is a request settling with a \<open>success: true\<close> payload.\<close>

fun successful :: "event \<Rightarrow> bool" where
  "successful (Settles (Resolved d)) = success d"
| "successful e = False"

text \<open>An event that is a request settling with a failure: the branches that set \<open>error\<close>.\<close>

fun fails :: "event \<Rightarrow> bool" where
  "fails (Settles (Resolved d)) = (\<not> success d)"
| "fails (Settles (Rejected err)) = True"
| "fails e = False"

section \<open>What the component renders\<close>

record MarketLine =
  highlighted :: bool
  symbol_cell :: string
  best_badge :: bool
  mark_price_cell :: string
  funding_badge :: "string \<times> string"
  open_interest_cell :: string
  volume_cell :: string
  change_badge :: "string \<times> string"
  premium_cell :: string

datatype TableLine = Market MarketLine | Placeholder string

definition no_markets_row :: TableLine where
  "no_markets_row = Placeholder ''No markets found with >$50M USD open interest''"

text \<open>The body of \<open>markets.map((market, index) => ...)\<close>; a badge is its variant and its text.\<close>

definition market_line :: "(number \<Rightarrow> nat \<times> nat) \<Rightarrow> nat \<Rightarrow> MarketRow \<Rightarrow> TableLine option" where
  "market_line shortest index market =
     do {
       mp \<leftarrow> formatNumber shortest (mark_price market) 2;
       fr \<leftarrow> formatPercent shortest (funding_rate market) 4;
       oi \<leftarrow> formatNumber shortest (open_interest market) 2;
       dv \<leftarrow> formatNumber shortest (day_volume market) 2;
       ch \<leftarrow> toFixed shortest (price_change_24h market) 2;
       pr \<leftarrow> formatPercent shortest (premium market) 4;
       Some (Market
         \<lparr>highlighted = (index = 0),
          symbol_cell = symbol market,
          best_badge = (index = 0),
          mark_price_cell = ''$'' @ mp,
          funding_badge = (getFundingBadgeVariant (funding_rate market), fr),
          open_interest_cell = ''$'' @ oi,
          volume_cell = ''$'' @ dv,
          change_badge =
            (getPriceChangeBadgeVariant (price_change_24h market),
             (if price_change_24h market > 0 then ''+'' else '''') @ ch @ ''%''),
          premium_cell = pr\<rparr>)
     }"

text \<open>
  \<open>data?.markets?.map(...) || (placeholder)\<close>: \<open>data?.markets\<close> is undefined when
  \<open>data\<close> is null or has no \<open>markets\<close>, and then the placeholder is the body; an
  array, also the empty one, is truthy, and then the mapped rows are the body.
\<close>

definition table_body :: "(number \<Rightarrow> nat \<times> nat) \<Rightarrow> DashboardSnapshot option \<Rightarrow> TableLine list option" where
  "table_body shortest d =
     (case Option.bind d markets of
        None \<Rightarrow> Some [no_markets_row]
      | Some ms \<Rightarrow> those (map (\<lambda>(index, market). market_line shortest index market) (enumerate 0 ms)))"

record DashboardView =
  refresh_disabled :: bool
  auto_label :: string
  last_updated_shown :: "nat option"
  total_markets_card :: int
  qualified_markets_card :: int
  highest_funding_value :: string
  highest_funding_symbol :: string
  table_lines :: "TableLine list"

datatype Screen = LoadingScreen | ErrorScreen json | Dashboard DashboardView

text \<open>
  \<open>{error}\<close> as a child of the error card: React renders texts and numbers, skips
  \<open>null\<close> and booleans, renders the items of an array, and throws on an object.
\<close>

fun renderable :: "json \<Rightarrow> bool" where
  "renderable (JObject members) = False"
| "renderable (JArray items) = list_all renderable items"
| "renderable v = True"

text \<open>
  The three returns of the component, in the source's order. \<open>None\<close> is an exception
  thrown while rendering.
\<close>

definition render_error :: "json option \<Rightarrow> Screen option" where
  "render_error e =
     (case e of
        None \<Rightarrow> Some (ErrorScreen JNull)
      | Some v \<Rightarrow> if renderable v then Some (ErrorScreen v) else None)"

definition render_dashboard :: "(number \<Rightarrow> nat \<times> nat) \<Rightarrow> ViewState \<Rightarrow> Screen option" where
  "render_dashboard shortest s =
     do {
       hv \<leftarrow> (case Option.bind (data s) highest_funding_rate of
                None \<Rightarrow> Some ''N/A''
              | Some h \<Rightarrow> formatPercent shortest (funding_rate h) 4);
       body \<leftarrow> table_body shortest (data s);
       Some (Dashboard
         \<lparr>refresh_disabled = loading s,
          auto_label = (if autoRefresh s then ''Auto: ON'' else ''Auto: OFF''),
          last_updated_shown = lastUpdated s,
          total_markets_card = (case data s of None \<Rightarrow> 0 | Some d \<Rightarrow> total_markets d),
          qualified_markets_card = (case data s of None \<Rightarrow> 0 | Some d \<Rightarrow> filtered_markets d),
          highest_funding_value = hv,
          highest_funding_symbol =
            (case Option.bind (data s) highest_funding_rate of
               None \<Rightarrow> ''No data''
             | Some h \<Rightarrow> if symbol h = [] then ''No data'' else symbol h),
          table_lines = body\<rparr>)
     }"

definition render :: "(number \<Rightarrow> nat \<times> nat) \<Rightarrow> ViewState \<Rightarrow> Screen option" where
  "render shortest s =
     (if loading s \<and> data s = None then Some LoadingScreen
      else if truthy (error s) then render_error (error s)
      else render_dashboard shortest s)"

section \<open>Auxiliary notions and example inputs\<close>

text \<open>A text ends in a character when it is not empty and that is its last character.\<close>

definition ends_in :: "string \<Rightarrow> char \<Rightarrow> bool" where
  "ends_in t c = (t \<noteq> [] \<and> last t = c)"

text \<open>
  The invariant of the interval bookkeeping: the active intervals are exactly the one
  the pending cleanup would clear, and there is such a cleanup exactly when
  auto-refresh is on.
\<close>

definition timers_ok :: "Component \<Rightarrow> bool" where
  "timers_ok c =
     (intervals c = (case cleanup c of None \<Rightarrow> [] | Some i \<Rightarrow> [i]) \<and>
      autoRefresh (view c) = (cleanup c \<noteq> None))"

text \<open>A value that is a text or missing.\<close>

definition text_or_missing :: "json option \<Rightarrow> bool" where
  "text_or_missing v = (case v of None \<Rightarrow> True | Some (JString t) \<Rightarrow> True | Some w \<Rightarrow> False)"

text \<open>Concrete inputs on which the theorems below are exercised.\<close>

definition btc_row :: MarketRow where
  "btc_row =
     \<lparr>symbol = ''BTC'', funding_rate = 6 / 10000, mark_price = 65000,
      open_interest = 2500000000, day_volume = 999999999, price_change_24h = 5 / 2,
      premium = - (1 / 10000)\<rparr>"

definition one_market_snapshot :: DashboardSnapshot where
  "one_market_snapshot =
     \<lparr>success = True, error_text = None, total_markets = 200, filtered_markets = 1,
      highest_funding_rate = Some \<lparr>symbol = ''BTC'', funding_rate = 6 / 10000\<rparr>,
      markets = Some [btc_row]\<rparr>"

definition empty_snapshot :: DashboardSnapshot where
  "empty_snapshot =
     \<lparr>success = True, error_text = None, total_markets = 200, filtered_markets = 0,
      highest_funding_rate = None, markets = Some []\<rparr>"

definition network_error :: Thrown where
  "network_error = \<lparr>response = None, message = Some (JString ''Network Error'')\<rparr>"

definition validation_error :: Thrown where
  "validation_error =
     \<lparr>response =
        Some \<lparr>response_data =
          Some \<lparr>detail = Some (JArray [JObject [(''msg'', JString ''field required'')]])\<rparr>\<rparr>,
      message = Some (JString ''Request failed with status code 422'')\<rparr>"

definition host_shortest :: "number \<Rightarrow> nat \<times> nat" where
  "host_shortest x = (1, 21)"

section \<open>Rounding to the nearest double\<close>

text \<open>\<open>bit_length\<close> and \<open>binary_exponent\<close> are what their names say.\<close>

lemma bit_length_nonpos: "k \<le> 0 \<Longrightarrow> bit_length k = 0"
  by (simp add: bit_length.simps [of k])

lemma bit_length_step: "0 < k \<Longrightarrow> bit_length k = 1 + bit_length (k div 2)"
  by (simp add: bit_length.simps [of k])

lemma bit_length_pos: "0 < k \<Longrightarrow> 1 \<le> bit_length k"
proof (induction k rule: bit_length.induct)
  case (1 k)
  show ?case
  proof (cases "k div 2 \<le> 0")
    case True
    with "1.prems" show ?thesis
      by (simp add: bit_length_step bit_length_nonpos)
  next
    case False
    with "1.IH" "1.prems" have "1 \<le> bit_length (k div 2)" by simp
    with "1.prems" show ?thesis by (simp add: bit_length_step)
  qed
qed

lemma bit_length_bounds:
  "0 < k \<Longrightarrow> 2 ^ nat (bit_length k - 1) \<le> k \<and> k < 2 ^ nat (bit_length k)"
proof (induction k rule: bit_length.induct)
  case (1 k)
  show ?case
  proof (cases "k div 2 \<le> 0")
    case True
    with "1.prems" have "k = 1" by linarith
    then show ?thesis
      by (simp add: bit_length_step bit_length_nonpos)
  next
    case False
    then have h: "0 < k div 2" by simp
    let ?b = "bit_length (k div 2)"
    from "1.IH" "1.prems" h
    have lo: "2 ^ nat (?b - 1) \<le> k div 2" and hi: "k div 2 < 2 ^ nat ?b" by simp_all
    have b: "1 \<le> ?b" using h by (rule bit_length_pos)
    have bl: "bit_length k = 1 + ?b" using "1.prems" by (rule bit_length_step)
    have n1: "nat ?b = Suc (nat (?b - 1))" using b by simp
    have n2: "nat (1 + ?b) = Suc (nat ?b)" using b by simp
    have "(2::int) ^ nat ?b = 2 * 2 ^ nat (?b - 1)" by (subst n1) simp
    also have "\<dots> \<le> 2 * (k div 2)" using lo by simp
    also have "\<dots> \<le> k" by simp
    finally have l: "2 ^ nat (bit_length k - 1) \<le> k" by (simp add: bl)
    have "k < 2 * (k div 2 + 1)" by presburger
    also have "\<dots> \<le> 2 * 2 ^ nat ?b" using hi by simp
    finally have u: "k < 2 ^ nat (bit_length k)" by (simp add: bl n2)
    from l u show ?thesis ..
  qed
qed

lemma pow2_powi: "pow2 e = 2 powi e"
  by (simp add: pow2_def power_int_def field_simps)

lemma pow2_pos: "0 < pow2 e"
  by (simp add: pow2_powi)

lemma pow2_add: "pow2 (i + j) = pow2 i * pow2 j"
  by (simp add: pow2_powi power_int_add)

lemma pow2_nat: "0 \<le> e \<Longrightarrow> pow2 e = 2 ^ nat e"
  by (simp add: pow2_def)

lemma round_half_even_close: "\<bar>of_int (round_half_even y) - y\<bar> \<le> 1 / 2"
proof -
  have "of_int \<lfloor>y\<rfloor> \<le> y" "y < of_int \<lfloor>y\<rfloor> + 1" by linarith+
  then show ?thesis
    by (auto simp: round_half_even_def Let_def abs_le_iff)
qed

lemma pow2_of_bit_length:
  assumes "0 < k"
  shows "pow2 (bit_length k - 1) \<le> of_int k \<and> of_int k < pow2 (bit_length k)"
proof -
  have b: "1 \<le> bit_length k" using assms by (rule bit_length_pos)
  from bit_length_bounds [OF assms]
  have "(2::int) ^ nat (bit_length k - 1) \<le> k" and "k < 2 ^ nat (bit_length k)" by simp_all
  then have "(of_int (2 ^ nat (bit_length k - 1)) :: rat) \<le> of_int k"
    and "(of_int k :: rat) < of_int (2 ^ nat (bit_length k))"
    by (simp_all only: of_int_le_iff of_int_less_iff)
  with b show ?thesis by (simp add: pow2_nat)
qed

lemma binary_exponent_bounds:
  assumes "x \<noteq> 0"
  shows "pow2 (binary_exponent x) \<le> \<bar>x\<bar> \<and> \<bar>x\<bar> < pow2 (binary_exponent x + 1)"
proof -
  obtain p q where pq: "quotient_of x = (p, q)" by (cases "quotient_of x")
  have q: "0 < q" using quotient_of_denom_pos [OF pq] .
  have x: "x = of_int p / of_int q" using quotient_of_div [OF pq] .
  have p: "0 < \<bar>p\<bar>" using assms x by auto
  define e where "e = bit_length \<bar>p\<bar> - bit_length q"
  have xq: "\<bar>x\<bar> * of_int q = of_int \<bar>p\<bar>" using q by (simp add: x)
  have qpos: "(0::rat) < of_int q" using q by simp
  from pow2_of_bit_length [OF p] pow2_of_bit_length [OF q]
  have pl: "pow2 (bit_length \<bar>p\<bar> - 1) \<le> of_int \<bar>p\<bar>" and pu: "of_int \<bar>p\<bar> < pow2 (bit_length \<bar>p\<bar>)"
    and ql: "pow2 (bit_length q - 1) \<le> of_int q" and qu: "of_int q < pow2 (bit_length q)"
    by simp_all
  have "\<bar>x\<bar> * of_int q < pow2 (bit_length \<bar>p\<bar>)" using pu by (simp only: xq)
  also have "pow2 (bit_length \<bar>p\<bar>) = pow2 (e + 1) * pow2 (bit_length q - 1)"
    by (simp add: e_def pow2_add [symmetric])
  also have "\<dots> \<le> pow2 (e + 1) * of_int q"
    using ql pow2_pos [of "e + 1"] by simp
  finally have upper: "\<bar>x\<bar> < pow2 (e + 1)" using qpos by simp
  have "pow2 (e - 1) * of_int q < pow2 (e - 1) * pow2 (bit_length q)"
    using qu pow2_pos [of "e - 1"] by simp
  also have "\<dots> = pow2 (bit_length \<bar>p\<bar> - 1)"
    by (simp add: e_def pow2_add [symmetric])
  also have "\<dots> \<le> \<bar>x\<bar> * of_int q" using pl by (simp only: xq)
  finally have lower: "pow2 (e - 1) < \<bar>x\<bar>" using qpos by simp
  have be: "binary_exponent x = (if pow2 e \<le> \<bar>x\<bar> then e else e - 1)"
    by (simp add: binary_exponent_def pq e_def Let_def)
  show ?thesis
  proof (cases "pow2 e \<le> \<bar>x\<bar>")
    case True
    with upper be show ?thesis by simp
  next
    case False
    with lower be show ?thesis by simp
  qed
qed

text \<open>
  The rounded value is a multiple of the spacing at the exponent of \<open>x\<close> (by its
  definition) and at most half a spacing away from \<open>x\<close>.
\<close>

lemma nearest_double_close:
  assumes "x \<noteq> 0"
  shows "\<bar>nearest_double x - x\<bar> \<le> pow2 (max (binary_exponent x) (- 1022) - 52) / 2"
proof -
  define q where "q = pow2 (max (binary_exponent x) (- 1022) - 52)"
  have qpos: "0 < q" unfolding q_def by (rule pow2_pos)
  have nd: "nearest_double x = of_int (round_half_even (x / q)) * q"
    using assms by (simp add: nearest_double_def q_def Let_def)
  have "nearest_double x - x = (of_int (round_half_even (x / q)) - x / q) * q"
    using qpos by (simp add: nd field_simps)
  then have "\<bar>nearest_double x - x\<bar> = \<bar>of_int (round_half_even (x / q)) - x / q\<bar> * q"
    using qpos by (simp add: abs_mult)
  also have "\<dots> \<le> 1 / 2 * q"
    using round_half_even_close [of "x / q"] qpos by (intro mult_right_mono) simp_all
  finally show ?thesis by (simp add: q_def)
qed

text \<open>The rounding of two decimals and of the two odd integers next above \<open>2^53\<close>.\<close>

lemma nearest_double_examples:
  "nearest_double (1 / 10) = 3602879701896397 / 36028797018963968"
  "nearest_double (1005 / 1000) = 1131529406376837 / 1125899906842624"
  "nearest_double 9007199254740993 = 9007199254740992"
  "nearest_double 9007199254740995 = 9007199254740996"
  by code_simp+

section \<open>The characters \<open>toFixed\<close> prints\<close>

lemma dec_digits_small: "n < 10 \<Longrightarrow> dec_digits n = [''0123456789'' ! n]"
  by (simp add: dec_digits.simps)

lemma dec_digits_big:
  "\<not> n < 10 \<Longrightarrow> dec_digits n = dec_digits (n div 10) @ [''0123456789'' ! (n mod 10)]"
  by (subst dec_digits.simps) simp

lemma digit_char: "d < 10 \<Longrightarrow> ''0123456789'' ! d \<in> set ''0123456789''"
  by (rule nth_mem) simp

lemma dec_digits_nonempty: "dec_digits n \<noteq> []"
  by (cases "n < 10") (simp_all add: dec_digits_small dec_digits_big)

lemma dec_digits_chars: "set (dec_digits n) \<subseteq> set ''0123456789''"
proof (induction n rule: dec_digits.induct)
  case (1 n)
  show ?case
  proof (cases "n < 10")
    case True
    then show ?thesis using digit_char [of n] by (simp only: dec_digits_small) simp
  next
    case False
    have "n mod 10 < 10" by simp
    from digit_char [OF this] "1" [OF False] show ?thesis
      by (simp only: dec_digits_big [OF False] set_append) simp
  qed
qed

lemma padded_chars: "set (padded x f) \<subseteq> set ''0123456789''"
proof -
  have z: "CHR ''0'' \<in> set ''0123456789''" by simp
  have "set (replicate k CHR ''0'') \<subseteq> set ''0123456789''" for k
    using z by (metis set_replicate_conv_if empty_subsetI insert_subset)
  with dec_digits_chars show ?thesis
    unfolding padded_def Let_def by (simp only: set_append Un_subset_iff split: if_split) blast
qed

lemma padded_length: "f < length (padded x f)"
proof -
  have "0 < length (dec_digits n)" for n using dec_digits_nonempty [of n] by simp
  then show ?thesis unfolding padded_def Let_def
    by (cases "f = 0") (simp_all add: not_le)
qed

lemma fixed_digits_last: "fixed_digits x f \<noteq> [] \<and> last (fixed_digits x f) \<in> set ''0123456789''"
proof -
  let ?m = "padded x f"
  have ne: "?m \<noteq> []" using padded_length [of f x] by auto
  have lm: "last ?m \<in> set ''0123456789''" using padded_chars last_in_set [OF ne] by blast
  show ?thesis
  proof (cases "f = 0")
    case True
    with ne lm show ?thesis by (simp add: fixed_digits_def Let_def)
  next
    case False
    have d: "drop (length ?m - f) ?m \<noteq> []" using padded_length [of f x] False by simp
    have "last (drop (length ?m - f) ?m) = last ?m"
      using padded_length [of f x] False by (intro last_drop) simp
    with d lm False show ?thesis by (simp add: fixed_digits_def Let_def)
  qed
qed

lemma fixed_digits_hd: "hd (fixed_digits x f) \<in> set ''0123456789''"
proof -
  let ?m = "padded x f"
  have ne: "?m \<noteq> []" using padded_length [of f x] by auto
  have hm: "hd ?m \<in> set ''0123456789''" using padded_chars hd_in_set [OF ne] by blast
  show ?thesis
  proof (cases "f = 0")
    case True
    with hm show ?thesis by (simp add: fixed_digits_def Let_def)
  next
    case False
    have t: "take (length ?m - f) ?m \<noteq> []" using padded_length [of f x] by auto
    have "hd (take (length ?m - f) ?m) = hd ?m"
      using padded_length [of f x] by (intro hd_take) simp
    with t hm False show ?thesis by (simp add: fixed_digits_def Let_def)
  qed
qed

lemma exponent_notation_last:
  "exponent_notation se \<noteq> [] \<and> last (exponent_notation se) \<in> set ''0123456789''"
proof -
  have ne: "dec_digits (snd se) \<noteq> []" by (rule dec_digits_nonempty)
  have "last (dec_digits (snd se)) \<in> set ''0123456789''"
    using dec_digits_chars last_in_set [OF ne] by blast
  with ne dec_digits_nonempty [of "fst se"] show ?thesis
    by (simp add: exponent_notation_def split: list.split)
qed

lemma exponent_notation_hd: "hd (exponent_notation se) \<in> set ''0123456789''"
proof -
  have ne: "dec_digits (fst se) \<noteq> []" by (rule dec_digits_nonempty)
  have "hd (dec_digits (fst se)) \<in> set ''0123456789''"
    using dec_digits_chars hd_in_set [OF ne] by blast
  with ne show ?thesis
    by (auto simp add: exponent_notation_def split: list.split)
qed

lemma fixed_notation_last:
  "fixed_notation x f \<noteq> [] \<and> last (fixed_notation x f) \<in> set ''0123456789''"
  using fixed_digits_last by (simp add: fixed_notation_def Let_def)

lemma toFixed_text_last:
  "toFixed_text sh x f \<noteq> [] \<and> last (toFixed_text sh x f) \<in> set ''0123456789''"
  using fixed_notation_last exponent_notation_last
  by (simp add: toFixed_text_def Let_def)

lemma signed_hd:
  assumes "hd t \<in> set ''0123456789''"
  shows "hd ((if neg then ''-'' else '''') @ t) \<in> set ''-0123456789''"
  using assms by (cases neg) simp_all

lemma toFixed_text_hd: "hd (toFixed_text sh x f) \<in> set ''-0123456789''"
  using signed_hd [OF fixed_digits_hd] signed_hd [OF exponent_notation_hd]
  by (simp add: toFixed_text_def fixed_notation_def Let_def del: set_simps)

lemma toFixed_text_no_plus: "hd (toFixed_text sh x f) \<noteq> CHR ''+''"
  using toFixed_text_hd [of sh x f] by auto

text \<open>Below \<open>10^21\<close> the text is fixed notation, whatever the host's exponent notation.\<close>

lemma toFixed_text_fixed:
  "\<bar>nearest_double x\<bar> < 10 ^ 21 \<Longrightarrow> toFixed_text sh x f = fixed_notation x f"
  by (simp add: toFixed_text_def Let_def)

text \<open>With fraction digits asked for, fixed notation ends in a point and that many digits.\<close>

lemma fixed_digits_shape:
  assumes "f \<noteq> 0"
  shows "\<exists>a b. fixed_digits x f = a @ ''.'' @ b \<and> length b = f \<and> set b \<subseteq> set ''0123456789''"
proof -
  let ?m = "padded x f"
  let ?b = "drop (length ?m - f) ?m"
  have "length ?b = f" using padded_length [of f x] by simp
  moreover have "set ?b \<subseteq> set ''0123456789''"
    using padded_chars [of x f] set_drop_subset [of "length ?m - f" ?m] by blast
  moreover have "fixed_digits x f = take (length ?m - f) ?m @ ''.'' @ ?b"
    using assms by (simp add: fixed_digits_def Let_def)
  ultimately show ?thesis by blast
qed

lemma toFixed_text_shape:
  assumes "f \<noteq> 0" and "\<bar>nearest_double x\<bar> < 10 ^ 21"
  shows "\<exists>a b. toFixed_text sh x f = a @ ''.'' @ b \<and> length b = f \<and> set b \<subseteq> set ''0123456789''"
proof -
  let ?y = "nearest_double x"
  from fixed_digits_shape [OF assms(1), of "\<bar>?y\<bar>"] obtain a b
    where ab: "fixed_digits \<bar>?y\<bar> f = a @ ''.'' @ b" "length b = f" "set b \<subseteq> set ''0123456789''"
    by blast
  have "toFixed_text sh x f = (if ?y < 0 then ''-'' else '''') @ fixed_digits \<bar>?y\<bar> f"
    using assms(2) by (simp add: toFixed_text_fixed fixed_notation_def Let_def)
  with ab have "toFixed_text sh x f = ((if ?y < 0 then ''-'' else '''') @ a) @ ''.'' @ b"
    by simp
  with ab(2,3) show ?thesis by blast
qed

lemma toFixed_Some: "f \<le> 100 \<Longrightarrow> toFixed sh x f = Some (toFixed_text sh x f)"
  by (simp add: toFixed_def)

lemma toFixed_double_Some:
  "f \<le> 100 \<Longrightarrow> toFixed_double sh y f = Some (toFixed_double_text sh y f)"
  by (simp add: toFixed_double_def)

lemma formatNumber_total: "d \<le> 100 \<Longrightarrow> \<exists>t. formatNumber sh n d = Some t"
  by (simp add: formatNumber_def toFixed_Some toFixed_double_Some)

lemma formatPercent_Some:
  "d \<le> 100 \<Longrightarrow>
   formatPercent sh n d = Some (toFixed_double_text sh (mul_double n 100) d @ ''%'')"
  by (simp add: formatPercent_def toFixed_double_Some)

text \<open>A rounded result below \<open>10^30\<close> is far from the largest double, so it is finite.\<close>

lemma to_double_Finite:
  assumes "\<bar>nearest_double x\<bar> < 10 ^ 30"
  shows "to_double x = Finite (nearest_double x)"
proof -
  have "(10::rat) ^ 30 < 2 ^ 1024" by simp
  with assms have "\<bar>nearest_double x\<bar> < 2 ^ 1024" by (rule less_trans)
  then show ?thesis by (simp add: to_double_def Let_def abs_less_iff not_le)
qed

lemma mul_double_Finite:
  "\<bar>nearest_double (nearest_double a * nearest_double b)\<bar> < 10 ^ 30 \<Longrightarrow>
   mul_double a b = Finite (nearest_double (nearest_double a * nearest_double b))"
  unfolding mul_double_def by (rule to_double_Finite)

lemma div_double_Finite:
  "\<bar>nearest_double (nearest_double a / nearest_double b)\<bar> < 10 ^ 30 \<Longrightarrow>
   div_double a b = Finite (nearest_double (nearest_double a / nearest_double b))"
  unfolding div_double_def by (rule to_double_Finite)

text \<open>The results in fixed notation, from the value of the quotient or the product.\<close>

lemma formatNumber_M:
  assumes "10 ^ 6 \<le> n" and "n < 10 ^ 9" and "d \<le> 100"
    and "div_double n (10 ^ 6) = Finite y" and "\<bar>nearest_double y\<bar> < 10 ^ 21"
  shows "formatNumber sh n d = Some (fixed_notation y d @ ''M'')"
  using assms
  by (simp add: formatNumber_def toFixed_double_Some toFixed_double_text_def toFixed_text_fixed)

lemma formatNumber_K:
  assumes "10 ^ 3 \<le> n" and "n < 10 ^ 6" and "d \<le> 100"
    and "div_double n (10 ^ 3) = Finite y" and "\<bar>nearest_double y\<bar> < 10 ^ 21"
  shows "formatNumber sh n d = Some (fixed_notation y d @ ''K'')"
  using assms
  by (simp add: formatNumber_def toFixed_double_Some toFixed_double_text_def toFixed_text_fixed)

lemma formatPercent_fixed:
  assumes "d \<le> 100" and "mul_double n 100 = Finite y" and "\<bar>nearest_double y\<bar> < 10 ^ 21"
  shows "formatPercent sh n d = Some (fixed_notation y d @ ''%'')"
  using assms
  by (simp add: formatPercent_Some toFixed_double_text_def toFixed_text_fixed)

section \<open>The formatting functions and the badge ladders\<close>

text \<open>
  C4. \<open>getFundingBadgeVariant\<close> is the ladder in which the first match wins: a rate
  above 0.0005 gives \<open>success\<close>; else a rate above 0.0001 gives \<open>warning\<close>; else a rate
  below -0.0001 gives \<open>destructive\<close>; else \<open>secondary\<close>. The rate 0.0005 itself gives
  \<open>warning\<close> and the rate 0 gives \<open>secondary\<close>.
\<close>

theorem funding_badge_ladder:
  "(rate > 5 / 10000 \<longrightarrow> getFundingBadgeVariant rate = ''success'') \<and>
   (\<not> rate > 5 / 10000 \<and> rate > 1 / 10000 \<longrightarrow> getFundingBadgeVariant rate = ''warning'') \<and>
   (\<not> rate > 5 / 10000 \<and> \<not> rate > 1 / 10000 \<and> rate < - (1 / 10000) \<longrightarrow>
      getFundingBadgeVariant rate = ''destructive'') \<and>
   (\<not> rate > 5 / 10000 \<and> \<not> rate > 1 / 10000 \<and> \<not> rate < - (1 / 10000) \<longrightarrow>
      getFundingBadgeVariant rate = ''secondary'') \<and>
   getFundingBadgeVariant (5 / 10000) = ''warning'' \<and>
   getFundingBadgeVariant 0 = ''secondary''"
  by (simp add: getFundingBadgeVariant_def)

theorem funding_badge_ladder_witness:
  "getFundingBadgeVariant (6 / 10000) = ''success'' \<and>
   getFundingBadgeVariant (2 / 10000) = ''warning'' \<and>
   getFundingBadgeVariant (- (2 / 10000)) = ''destructive'' \<and>
   getFundingBadgeVariant (1 / 10000) = ''secondary''"
  using funding_badge_ladder [of "6 / 10000"] funding_badge_ladder [of "2 / 10000"]
    funding_badge_ladder [of "- (2 / 10000)"] funding_badge_ladder [of "1 / 10000"]
  by simp

text \<open>
  C7. \<open>getPriceChangeBadgeVariant\<close> is the ladder in which the first match wins: a
  change above 5 gives \<open>success\<close>; else a change above 0 gives \<open>warning\<close>; else a
  change below -5 gives \<open>destructive\<close>; else \<open>secondary\<close>. The change 0 gives
  \<open>secondary\<close>.
\<close>

theorem price_change_badge_ladder:
  "(pct > 5 \<longrightarrow> getPriceChangeBadgeVariant pct = ''success'') \<and>
   (\<not> pct > 5 \<and> pct > 0 \<longrightarrow> getPriceChangeBadgeVariant pct = ''warning'') \<and>
   (\<not> pct > 5 \<and> \<not> pct > 0 \<and> pct < - 5 \<longrightarrow> getPriceChangeBadgeVariant pct = ''destructive'') \<and>
   (\<not> pct > 5 \<and> \<not> pct > 0 \<and> \<not> pct < - 5 \<longrightarrow> getPriceChangeBadgeVariant pct = ''secondary'') \<and>
   getPriceChangeBadgeVariant 0 = ''secondary''"
  by (simp add: getPriceChangeBadgeVariant_def)

theorem price_change_badge_ladder_witness:
  "getPriceChangeBadgeVariant 6 = ''success'' \<and>
   getPriceChangeBadgeVariant 1 = ''warning'' \<and>
   getPriceChangeBadgeVariant (- 6) = ''destructive'' \<and>
   getPriceChangeBadgeVariant (- 5) = ''secondary''"
  using price_change_badge_ladder [of 6] price_change_badge_ladder [of 1]
    price_change_badge_ladder [of "- 6"] price_change_badge_ladder [of "- 5"]
  by simp

text \<open>
  C5. With the default two decimals, \<open>formatNumber n\<close> returns a text that ends in
  \<open>B\<close> when \<open>n \<ge> 1e9\<close>, in \<open>M\<close> when \<open>1e6 \<le> n < 1e9\<close>, in \<open>K\<close> when \<open>1e3 \<le> n < 1e6\<close>,
  and a text with no suffix (it ends in a digit, so in none of the three letters) when
  \<open>n < 1e3\<close>; \<open>formatNumber 1000000\<close> is \<open>1.00M\<close>.
\<close>

theorem formatNumber_suffix:
  "(10 ^ 9 \<le> n \<longrightarrow> (\<exists>t. formatNumber sh n 2 = Some t \<and> ends_in t CHR ''B'')) \<and>
   (10 ^ 6 \<le> n \<and> n < 10 ^ 9 \<longrightarrow> (\<exists>t. formatNumber sh n 2 = Some t \<and> ends_in t CHR ''M'')) \<and>
   (10 ^ 3 \<le> n \<and> n < 10 ^ 6 \<longrightarrow> (\<exists>t. formatNumber sh n 2 = Some t \<and> ends_in t CHR ''K'')) \<and>
   (n < 10 ^ 3 \<longrightarrow>
      (\<exists>t. formatNumber sh n 2 = Some t \<and> t \<noteq> [] \<and> last t \<in> set ''0123456789'' \<and>
           \<not> ends_in t CHR ''B'' \<and> \<not> ends_in t CHR ''M'' \<and> \<not> ends_in t CHR ''K'')) \<and>
   formatNumber sh 1000000 2 = Some ''1.00M''"
proof -
  have big: "10 ^ 9 \<le> n \<longrightarrow> (\<exists>t. formatNumber sh n 2 = Some t \<and> ends_in t CHR ''B'')"
    by (simp add: formatNumber_def toFixed_double_Some ends_in_def)
  have mid: "10 ^ 6 \<le> n \<and> n < 10 ^ 9 \<longrightarrow> (\<exists>t. formatNumber sh n 2 = Some t \<and> ends_in t CHR ''M'')"
    by (simp add: formatNumber_def toFixed_double_Some ends_in_def)
  have small: "10 ^ 3 \<le> n \<and> n < 10 ^ 6 \<longrightarrow> (\<exists>t. formatNumber sh n 2 = Some t \<and> ends_in t CHR ''K'')"
    by (simp add: formatNumber_def toFixed_double_Some ends_in_def)
  have bare: "n < 10 ^ 3 \<longrightarrow>
      (\<exists>t. formatNumber sh n 2 = Some t \<and> t \<noteq> [] \<and> last t \<in> set ''0123456789'' \<and>
           \<not> ends_in t CHR ''B'' \<and> \<not> ends_in t CHR ''M'' \<and> \<not> ends_in t CHR ''K'')"
  proof
    assume n: "n < 10 ^ 3"
    then have eq: "formatNumber sh n 2 = Some (toFixed_text sh n 2)"
      by (simp add: formatNumber_def toFixed_Some)
    from toFixed_text_last [of sh n 2]
    have "toFixed_text sh n 2 \<noteq> []" "last (toFixed_text sh n 2) \<in> set ''0123456789''"
      by blast+
    moreover from this have "\<not> ends_in (toFixed_text sh n 2) CHR ''B''"
      "\<not> ends_in (toFixed_text sh n 2) CHR ''M''" "\<not> ends_in (toFixed_text sh n 2) CHR ''K''"
      by (auto simp: ends_in_def)
    ultimately show "\<exists>t. formatNumber sh n 2 = Some t \<and> t \<noteq> [] \<and> last t \<in> set ''0123456789'' \<and>
           \<not> ends_in t CHR ''B'' \<and> \<not> ends_in t CHR ''M'' \<and> \<not> ends_in t CHR ''K''"
      using eq by blast
  qed
  have "nearest_double (nearest_double 1000000 / nearest_double (10 ^ 6)) = 1"
    by code_simp
  with div_double_Finite [of 1000000 "10 ^ 6"]
  have quotient: "div_double 1000000 (10 ^ 6) = Finite 1"
    by simp
  have below: "\<bar>nearest_double 1\<bar> < 10 ^ 21"
    by code_simp
  have digits: "fixed_notation 1 2 = ''1.00''"
    by code_simp
  have "formatNumber sh 1000000 2 = Some (fixed_notation 1 2 @ ''M'')"
    by (rule formatNumber_M [OF _ _ _ quotient below]) simp_all
  then have million: "formatNumber sh 1000000 2 = Some ''1.00M''"
    unfolding digits by simp
  from big mid small bare million show ?thesis by blast
qed

theorem formatNumber_suffix_witness:
  "(\<exists>t. formatNumber host_shortest 2500000000 2 = Some t \<and> ends_in t CHR ''B'') \<and>
   (\<exists>t. formatNumber host_shortest 999999999 2 = Some t \<and> ends_in t CHR ''M'') \<and>
   (\<exists>t. formatNumber host_shortest 1000 2 = Some t \<and> ends_in t CHR ''K'') \<and>
   (\<exists>t. formatNumber host_shortest (1999 / 2) 2 = Some t \<and> \<not> ends_in t CHR ''K'')"
  using formatNumber_suffix [of 2500000000 host_shortest]
    formatNumber_suffix [of 999999999 host_shortest]
    formatNumber_suffix [of 1000 host_shortest]
    formatNumber_suffix [of "1999 / 2" host_shortest]
  by (simp del: set_simps) blast

text \<open>The division is the doubles': 1005 / 1e3 is the double just below 1.005.\<close>

lemma formatNumber_1005: "formatNumber sh 1005 2 = Some ''1.00K''"
proof -
  have "nearest_double (nearest_double 1005 / nearest_double (10 ^ 3)) = nearest_double (1005 / 1000)"
    "\<bar>nearest_double (1005 / 1000)\<bar> < 10 ^ 30"
    by code_simp+
  with div_double_Finite [of 1005 "10 ^ 3"]
  have quotient: "div_double 1005 (10 ^ 3) = Finite (nearest_double (1005 / 1000))"
    by simp
  have below: "\<bar>nearest_double (nearest_double (1005 / 1000))\<bar> < 10 ^ 21"
    by code_simp
  have digits: "fixed_notation (nearest_double (1005 / 1000)) 2 = ''1.00''"
    by code_simp
  have "formatNumber sh 1005 2 = Some (fixed_notation (nearest_double (1005 / 1000)) 2 @ ''K'')"
    by (rule formatNumber_K [OF _ _ _ quotient below]) simp_all
  then show ?thesis unfolding digits by simp
qed

text \<open>
  C6. \<open>formatPercent\<close> multiplies its input by 100, prints it with the given number
  of fixed decimals and appends \<open>%\<close>: the result is \<open>toFixed\<close> of the doubles' product
  of the input and 100, followed by \<open>%\<close>, which in fixed notation is a point, exactly
  \<open>d\<close> digits and \<open>%\<close> at its end; \<open>formatPercent 0.0005\<close> with the default four
  decimals is \<open>0.0500%\<close>, and \<open>formatPercent (-0.0001) 2\<close> is \<open>-0.01%\<close>.
\<close>

theorem formatPercent_times_100:
  "(d \<le> 100 \<longrightarrow>
      formatPercent sh n d = Some (toFixed_double_text sh (mul_double n 100) d @ ''%'')) \<and>
   (d \<le> 100 \<and> d \<noteq> 0 \<and> mul_double n 100 = Finite y \<and> \<bar>nearest_double y\<bar> < 10 ^ 21 \<longrightarrow>
      (\<exists>a b. formatPercent sh n d = Some (a @ ''.'' @ b @ ''%'') \<and> length b = d \<and>
             set b \<subseteq> set ''0123456789'')) \<and>
   formatPercent sh (5 / 10000) 4 = Some ''0.0500%'' \<and>
   formatPercent sh (- (1 / 10000)) 2 = Some ''-0.01%''"
proof -
  have "\<bar>nearest_double (nearest_double (5 / 10000) * nearest_double 100)\<bar> < 10 ^ 30"
    "nearest_double (nearest_double (5 / 10000) * nearest_double 100) =
     nearest_double (nearest_double (5 / 10000) * 100)"
    by code_simp+
  with mul_double_Finite [of "5 / 10000" 100]
  have p1: "mul_double (5 / 10000) 100 = Finite (nearest_double (nearest_double (5 / 10000) * 100))"
    by simp
  have b1: "\<bar>nearest_double (nearest_double (nearest_double (5 / 10000) * 100))\<bar> < 10 ^ 21"
    by code_simp
  have d1: "fixed_notation (nearest_double (nearest_double (5 / 10000) * 100)) 4 = ''0.0500''"
    by code_simp
  have "formatPercent sh (5 / 10000) 4 =
      Some (fixed_notation (nearest_double (nearest_double (5 / 10000) * 100)) 4 @ ''%'')"
    by (rule formatPercent_fixed [OF _ p1 b1]) simp
  then have e1: "formatPercent sh (5 / 10000) 4 = Some ''0.0500%''"
    unfolding d1 by simp
  have "\<bar>nearest_double (nearest_double (- (1 / 10000)) * nearest_double 100)\<bar> < 10 ^ 30"
    "nearest_double (nearest_double (- (1 / 10000)) * nearest_double 100) =
     nearest_double (nearest_double (- (1 / 10000)) * 100)"
    by code_simp+
  with mul_double_Finite [of "- (1 / 10000)" 100]
  have p2: "mul_double (- (1 / 10000)) 100 =
      Finite (nearest_double (nearest_double (- (1 / 10000)) * 100))"
    by simp
  have b2: "\<bar>nearest_double (nearest_double (nearest_double (- (1 / 10000)) * 100))\<bar> < 10 ^ 21"
    by code_simp
  have d2: "fixed_notation (nearest_double (nearest_double (- (1 / 10000)) * 100)) 2 = ''-0.01''"
    by code_simp
  have "formatPercent sh (- (1 / 10000)) 2 =
      Some (fixed_notation (nearest_double (nearest_double (- (1 / 10000)) * 100)) 2 @ ''%'')"
    by (rule formatPercent_fixed [OF _ p2 b2]) simp
  then have e2: "formatPercent sh (- (1 / 10000)) 2 = Some ''-0.01%''"
    unfolding d2 by simp
  have shape: "d \<le> 100 \<and> d \<noteq> 0 \<and> mul_double n 100 = Finite y \<and> \<bar>nearest_double y\<bar> < 10 ^ 21 \<longrightarrow>
      (\<exists>a b. formatPercent sh n d = Some (a @ ''.'' @ b @ ''%'') \<and> length b = d \<and>
             set b \<subseteq> set ''0123456789'')"
  proof
    assume h: "d \<le> 100 \<and> d \<noteq> 0 \<and> mul_double n 100 = Finite y \<and> \<bar>nearest_double y\<bar> < 10 ^ 21"
    then obtain a b where "toFixed_text sh y d = a @ ''.'' @ b" "length b = d"
      "set b \<subseteq> set ''0123456789''"
      using toFixed_text_shape [of d y sh] by blast
    with h show "\<exists>a b. formatPercent sh n d = Some (a @ ''.'' @ b @ ''%'') \<and> length b = d \<and>
             set b \<subseteq> set ''0123456789''"
      by (simp add: formatPercent_Some toFixed_double_text_def del: set_simps) blast
  qed
  from e1 e2 shape show ?thesis by (simp add: formatPercent_Some del: set_simps)
qed

theorem formatPercent_times_100_witness:
  "(4::nat) \<le> 100 \<and> (4::nat) \<noteq> 0 \<and>
   mul_double (45 / 10000000) 100 = Finite (4150517416584649 / 9223372036854775808) \<and>
   \<bar>nearest_double (4150517416584649 / 9223372036854775808)\<bar> < 10 ^ 21 \<and>
   formatPercent host_shortest (45 / 10000000) 4 = Some ''0.0004%''"
proof -
  have "\<bar>nearest_double (nearest_double (45 / 10000000) * nearest_double 100)\<bar> < 10 ^ 30"
    "nearest_double (nearest_double (45 / 10000000) * nearest_double 100) =
     4150517416584649 / 9223372036854775808"
    by code_simp+
  with mul_double_Finite [of "45 / 10000000" 100]
  have p: "mul_double (45 / 10000000) 100 = Finite (4150517416584649 / 9223372036854775808)"
    by simp
  have b: "\<bar>nearest_double (4150517416584649 / 9223372036854775808)\<bar> < 10 ^ 21"
    by code_simp
  have d: "fixed_notation (4150517416584649 / 9223372036854775808) 4 = ''0.0004''"
    by code_simp
  have "formatPercent host_shortest (45 / 10000000) 4 =
      Some (toFixed_double_text host_shortest (mul_double (45 / 10000000) 100) 4 @ ''%'')"
  proof -
    have le: "(4::nat) \<le> 100" by simp
    from formatPercent_times_100
      [of 4 host_shortest "45 / 10000000" "4150517416584649 / 9223372036854775808"]
    have "4 \<le> (100::nat) \<longrightarrow>
        formatPercent host_shortest (45 / 10000000) 4 =
        Some (toFixed_double_text host_shortest (mul_double (45 / 10000000) 100) 4 @ ''%'')"
      by (rule conjunct1)
    from this le show ?thesis by (rule mp)
  qed
  also have "toFixed_double_text host_shortest (mul_double (45 / 10000000) 100) 4 = ''0.0004''"
    unfolding p toFixed_double_text_def double.case toFixed_text_fixed [OF b] d ..
  finally have "formatPercent host_shortest (45 / 10000000) 4 = Some ''0.0004%''"
    by simp
  with p b show ?thesis by simp
qed

section \<open>A request settling\<close>

text \<open>
  Whatever the state is when the request settles, a \<open>success: true\<close> payload becomes
  \<open>data\<close> as it is, with the time stamp and \<open>loading\<close> off, and \<open>error\<close> stays as it
  is: lines 33 to 35 and 42 do not write it.
\<close>

lemma settle_success_any_state:
  "success d \<Longrightarrow>
   data (fetchData_settle (Resolved d) now s) = Some d \<and>
   lastUpdated (fetchData_settle (Resolved d) now s) = Some now \<and>
   \<not> loading (fetchData_settle (Resolved d) now s) \<and>
   error (fetchData_settle (Resolved d) now s) = error s"
  by (simp add: fetchData_settle_def)

lemma clock_step: "clock c \<le> clock (step e c)"
  by (cases e)
    (simp_all add: step_def call_fetchData_def autoRefresh_effect_def run_cleanup_def
      setAutoRefresh_def clearInterval_def setInterval_def split: option.splits)

lemma clock_run: "clock c \<le> clock (run es c)"
  unfolding run_def
proof (induction es arbitrary: c)
  case Nil
  show ?case by simp
next
  case (Cons e es)
  have "clock c \<le> clock (step e c)" by (rule clock_step)
  also have "\<dots> \<le> clock (fold step es (step e c))" by (rule Cons.IH)
  finally show ?case by simp
qed

lemma call_fetchData_clears: "error (view (call_fetchData who c)) = None"
  by (simp add: call_fetchData_def fetchData_begin_def)

lemma call_fetchData_clock: "clock (call_fetchData who c) = clock c"
  by (simp add: call_fetchData_def)

lemma step_error_kept:
  assumes "error (view c) = None" and "\<not> fails e"
  shows "error (view (step e c)) = None"
proof (cases e)
  case (Settles oc)
  with assms show ?thesis
    by (cases oc) (simp_all add: step_def fetchData_settle_def)
next
  case ClickAuto
  with assms show ?thesis
    by (simp add: step_def autoRefresh_effect_def run_cleanup_def setAutoRefresh_def
        clearInterval_def setInterval_def split: option.splits)
qed (use assms in \<open>simp_all add: step_def call_fetchData_def fetchData_begin_def\<close>)

lemma run_error_kept:
  "error (view c) = None \<Longrightarrow> \<not> list_ex fails es \<Longrightarrow> error (view (run es c)) = None"
  unfolding run_def by (induction es arbitrary: c) (simp_all add: step_error_kept)

text \<open>
  C2, as the code has it. An invocation of \<open>fetchData\<close> (by the mount, a click or
  the interval) in a state \<open>c\<close>, any events \<open>es\<close> after it, then a request in flight
  settling with a \<open>success = true\<close> response: \<open>data\<close> is the received payload,
  \<open>loading\<close> is false, and \<open>lastUpdated\<close> is the clock's reading at the settlement,
  which is not before the clock's reading at the invocation; \<open>error\<close> is none when no
  request has settled with a failure among \<open>es\<close>.
\<close>

theorem success_settlement:
  assumes "success d" and "c1 = run es (call_fetchData who c)"
    and "settled c1 < length (started c1)"
  shows "data (view (step (Settles (Resolved d)) c1)) = Some d \<and>
         \<not> loading (view (step (Settles (Resolved d)) c1)) \<and>
         lastUpdated (view (step (Settles (Resolved d)) c1)) = Some (clock c1) \<and>
         clock c \<le> clock c1 \<and>
         (\<not> list_ex fails es \<longrightarrow> error (view (step (Settles (Resolved d)) c1)) = None)"
proof -
  have v: "view (step (Settles (Resolved d)) c1) =
      fetchData_settle (Resolved d) (clock c1) (view c1)"
    using assms(3) by (simp add: step_def)
  have t: "clock c \<le> clock c1"
    using clock_run [of "call_fetchData who c" es] assms(2) by (simp add: call_fetchData_clock)
  have e: "\<not> list_ex fails es \<longrightarrow> error (view c1) = None"
    using run_error_kept [OF call_fetchData_clears, of es who c] assms(2) by simp
  from settle_success_any_state [OF assms(1), of "clock c1" "view c1"] v t e
  show ?thesis by simp
qed

theorem success_settlement_witness:
  "success one_market_snapshot \<and>
   data (view (step (Settles (Resolved one_market_snapshot))
     (run [Elapse 250, ClickAuto] (call_fetchData OnClick mount)))) = Some one_market_snapshot \<and>
   lastUpdated (view (step (Settles (Resolved one_market_snapshot))
     (run [Elapse 250, ClickAuto] (call_fetchData OnClick mount)))) = Some 250 \<and>
   error (view (step (Settles (Resolved one_market_snapshot))
     (run [Elapse 250, ClickAuto] (call_fetchData OnClick mount)))) = None"
proof -
  let ?c1 = "run [Elapse 250, ClickAuto] (call_fetchData OnClick mount)"
  have s: "success one_market_snapshot" by (simp add: one_market_snapshot_def)
  have p: "settled ?c1 < length (started ?c1)" and k: "clock ?c1 = 250"
    by (simp_all add: run_def step_def mount_def call_fetchData_def autoRefresh_effect_def
        run_cleanup_def setAutoRefresh_def clearInterval_def setInterval_def fetchData_begin_def
        initial_view_def)
  have n: "\<not> list_ex fails [Elapse 250, ClickAuto]" by simp
  from success_settlement [OF s refl p] n k s show ?thesis by simp
qed

text \<open>
  C2 as the spec states it asks for \<open>error\<close> to be none after every such
  invocation. It is not: the mount's request is still in flight when the interval
  starts a second one, the second fails, and then the first succeeds.
\<close>

theorem error_survives_success_counterexample:
  "success one_market_snapshot \<and>
   data (view (run [Elapse 30000, IntervalFires 1, Elapse 400, Settles (Rejected network_error),
     Elapse 600, Settles (Resolved one_market_snapshot)] mount)) = Some one_market_snapshot \<and>
   error (view (run [Elapse 30000, IntervalFires 1, Elapse 400, Settles (Rejected network_error),
     Elapse 600, Settles (Resolved one_market_snapshot)] mount)) = Some (JString ''Network Error'')"
  by (simp add: run_def step_def mount_def call_fetchData_def autoRefresh_effect_def
      setInterval_def fetchData_begin_def fetchData_settle_def initial_view_def
      one_market_snapshot_def network_error_def js_or_def truthy_def)

section \<open>A request failing\<close>

lemma js_or_text:
  assumes "text_or_missing a" and "\<exists>m. b = Some (JString m) \<and> m \<noteq> []"
  shows "\<exists>m. js_or a b = Some (JString m) \<and> m \<noteq> []"
proof (cases a)
  case None
  with assms(2) show ?thesis by (simp add: js_or_def truthy_def)
next
  case (Some v)
  with assms show ?thesis
    by (cases v) (auto simp: js_or_def truthy_def text_or_missing_def)
qed

lemma js_or_text_or_missing:
  "text_or_missing a \<Longrightarrow> text_or_missing b \<Longrightarrow> text_or_missing (js_or a b)"
  by (simp add: js_or_def)

text \<open>
  When \<open>detail\<close> and \<open>message\<close> are each a text or missing, a request that throws or
  rejects leaves \<open>data\<close> as it was, sets \<open>error\<close> to a text that is not empty and ends
  with \<open>loading\<close> false.
\<close>

lemma rejected_with_texts:
  assumes "text_or_missing (Option.bind (Option.bind (response err) response_data) detail)"
    and "text_or_missing (message err)"
  shows "data (fetchData_settle (Rejected err) now s) = data s \<and>
         (\<exists>m. error (fetchData_settle (Rejected err) now s) = Some (JString m) \<and> m \<noteq> []) \<and>
         \<not> loading (fetchData_settle (Rejected err) now s)"
proof -
  have "\<exists>m. js_or (js_or (Option.bind (Option.bind (response err) response_data) detail)
                   (message err))
                (Some (JString ''Failed to fetch data'')) = Some (JString m) \<and> m \<noteq> []"
    by (rule js_or_text [OF js_or_text_or_missing [OF assms]]) simp
  then show ?thesis by (simp add: fetchData_settle_def)
qed

text \<open>
  C3 asks that \<open>error\<close> be a non-empty string after every invocation that throws or
  rejects. Line 40 stores whatever truthy value \<open>detail\<close> is: after a rejection whose
  body is \<open>{"detail": [{"msg": "field required"}]}\<close>, \<open>data\<close> is as it was and
  \<open>loading\<close> is false, but \<open>error\<close> is that array, and rendering the error screen
  throws on the object in it.
\<close>

theorem rejected_with_structured_detail:
  "data (fetchData_settle (Rejected validation_error) now (fetchData_begin s)) = data s \<and>
   \<not> loading (fetchData_settle (Rejected validation_error) now (fetchData_begin s)) \<and>
   error (fetchData_settle (Rejected validation_error) now (fetchData_begin s)) =
     Some (JArray [JObject [(''msg'', JString ''field required'')]]) \<and>
   render sh (fetchData_settle (Rejected validation_error) now (fetchData_begin s)) = None"
  by (simp add: fetchData_settle_def fetchData_begin_def validation_error_def js_or_def
      truthy_def render_def render_error_def)

theorem rejected_with_structured_detail_witness:
  "error (view (step (Settles (Rejected validation_error)) mount)) =
     Some (JArray [JObject [(''msg'', JString ''field required'')]]) \<and>
   render host_shortest (view (step (Settles (Rejected validation_error)) mount)) = None"
proof -
  have "view (step (Settles (Rejected validation_error)) mount) =
      fetchData_settle (Rejected validation_error) 0 (fetchData_begin initial_view)"
    by (simp add: step_def mount_def call_fetchData_def autoRefresh_effect_def setInterval_def
        initial_view_def)
  with rejected_with_structured_detail [of 0 initial_view host_shortest] show ?thesis by simp
qed

section \<open>The interval of the auto-refresh\<close>

lemma timers_ok_mount: "timers_ok mount"
  by (simp add: timers_ok_def mount_def autoRefresh_effect_def call_fetchData_def setInterval_def
      fetchData_begin_def initial_view_def)

lemma timers_ok_cleanup:
  "timers_ok c \<Longrightarrow> intervals (run_cleanup (setAutoRefresh b c)) = []"
  by (auto simp: timers_ok_def run_cleanup_def setAutoRefresh_def clearInterval_def split: option.splits)

lemma settle_autoRefresh: "autoRefresh (fetchData_settle oc now s) = autoRefresh s"
  by (cases oc) (simp_all add: fetchData_settle_def)

lemma timers_ok_effect: "intervals c = [] \<Longrightarrow> timers_ok (autoRefresh_effect c)"
  by (simp add: timers_ok_def autoRefresh_effect_def setInterval_def)

lemma timers_ok_step: "timers_ok c \<Longrightarrow> timers_ok (step e c)"
proof (cases e)
  case ClickAuto
  assume "timers_ok c"
  then have "intervals (run_cleanup (setAutoRefresh (\<not> autoRefresh (view c)) c)) = []"
    by (rule timers_ok_cleanup)
  then have "timers_ok (autoRefresh_effect (run_cleanup (setAutoRefresh (\<not> autoRefresh (view c)) c)))"
    by (rule timers_ok_effect)
  with ClickAuto show ?thesis by (simp add: step_def)
qed (simp_all add: timers_ok_def step_def call_fetchData_def fetchData_begin_def
    settle_autoRefresh)

lemma timers_ok_run: "timers_ok c \<Longrightarrow> timers_ok (run es c)"
  unfolding run_def by (induction es arbitrary: c) (simp_all add: timers_ok_step)

lemma timers_off: "timers_ok c \<Longrightarrow> \<not> autoRefresh (view c) \<Longrightarrow> intervals c = []"
  by (simp add: timers_ok_def)

lemma timers_at_most_one: "timers_ok c \<Longrightarrow> length (intervals c) \<le> 1"
  by (simp add: timers_ok_def split: option.splits)

lemma no_interval_no_fetch: "intervals c = [] \<Longrightarrow> step (IntervalFires i) c = c"
  by (simp add: step_def)

lemma click_auto_flips: "autoRefresh (view (step ClickAuto c)) = (\<not> autoRefresh (view c))"
  by (simp add: step_def autoRefresh_effect_def run_cleanup_def setAutoRefresh_def clearInterval_def
      setInterval_def split: option.splits)

text \<open>
  C8. In every state \<open>c\<close> that a run of events reaches from mounting, at most one
  interval is active, also between the cleanup and the next run of the effect; while
  auto-refresh is off no interval is active and the period of any interval running out
  starts no fetch (the state, with its log of fetches, stays as it is); and when
  auto-refresh is on, the click that turns it off clears the interval, so that no
  fetch comes from the scheduler afterwards.
\<close>

theorem autoRefresh_off_cancels_timer:
  assumes "c = run es mount"
  shows "length (intervals c) \<le> 1 \<and>
         length (intervals (run_cleanup (setAutoRefresh (\<not> autoRefresh (view c)) c))) \<le> 1 \<and>
         (\<not> autoRefresh (view c) \<longrightarrow> intervals c = [] \<and> step (IntervalFires i) c = c) \<and>
         (autoRefresh (view c) \<longrightarrow>
            \<not> autoRefresh (view (step ClickAuto c)) \<and>
            intervals (step ClickAuto c) = [] \<and>
            step (IntervalFires i) (step ClickAuto c) = step ClickAuto c)"
proof -
  have ok: "timers_ok c" using assms timers_ok_mount by (simp add: timers_ok_run)
  then have ok': "timers_ok (step ClickAuto c)" by (rule timers_ok_step)
  have one: "length (intervals c) \<le> 1" using ok by (rule timers_at_most_one)
  have mid: "length (intervals (run_cleanup (setAutoRefresh (\<not> autoRefresh (view c)) c))) \<le> 1"
    using timers_ok_cleanup [OF ok] by simp
  have off: "\<not> autoRefresh (view c) \<longrightarrow> intervals c = [] \<and> step (IntervalFires i) c = c"
    using timers_off [OF ok] no_interval_no_fetch by blast
  have toggle: "autoRefresh (view c) \<longrightarrow>
            \<not> autoRefresh (view (step ClickAuto c)) \<and>
            intervals (step ClickAuto c) = [] \<and>
            step (IntervalFires i) (step ClickAuto c) = step ClickAuto c"
    using timers_off [OF ok'] no_interval_no_fetch click_auto_flips by blast
  from one mid off toggle show ?thesis by blast
qed

theorem autoRefresh_off_cancels_timer_witness:
  "length (intervals (run [ClickAuto, ClickAuto] mount)) \<le> 1 \<and>
   autoRefresh (view (run [ClickAuto, ClickAuto] mount)) \<and>
   \<not> autoRefresh (view (step ClickAuto (run [ClickAuto, ClickAuto] mount))) \<and>
   intervals (step ClickAuto (run [ClickAuto, ClickAuto] mount)) = [] \<and>
   step (IntervalFires 2) (step ClickAuto (run [ClickAuto, ClickAuto] mount)) =
     step ClickAuto (run [ClickAuto, ClickAuto] mount) \<and>
   intervals (run [ClickAuto] mount) = [] \<and>
   step (IntervalFires 1) (run [ClickAuto] mount) = run [ClickAuto] mount"
proof -
  have on: "autoRefresh (view (run [ClickAuto, ClickAuto] mount))"
    by (simp add: run_def click_auto_flips mount_def autoRefresh_effect_def call_fetchData_def
        setInterval_def fetchData_begin_def initial_view_def)
  have off: "\<not> autoRefresh (view (run [ClickAuto] mount))"
    by (simp add: run_def click_auto_flips mount_def autoRefresh_effect_def call_fetchData_def
        setInterval_def fetchData_begin_def initial_view_def)
  from autoRefresh_off_cancels_timer [OF refl, of "[ClickAuto, ClickAuto]" 2]
    autoRefresh_off_cancels_timer [OF refl, of "[ClickAuto]" 1] on off
  show ?thesis by simp
qed

section \<open>The \<open>data\<close> cell over the life of the component\<close>

lemma step_data:
  "data (view (step e c)) = data (view c) \<or>
   (\<exists>d. e = Settles (Resolved d) \<and> success d \<and> data (view (step e c)) = Some d)"
proof (cases e)
  case (Settles oc)
  then show ?thesis
    by (cases oc) (simp_all add: step_def fetchData_settle_def)
next
  case ClickAuto
  then show ?thesis
    by (simp add: step_def autoRefresh_effect_def run_cleanup_def setAutoRefresh_def
        clearInterval_def setInterval_def split: option.splits)
qed (simp_all add: step_def call_fetchData_def fetchData_begin_def)

lemma step_data_unsuccessful: "\<not> successful e \<Longrightarrow> data (view (step e c)) = data (view c)"
  using step_data [of e c] by auto

lemma step_data_kept: "data (view c) \<noteq> None \<Longrightarrow> data (view (step e c)) \<noteq> None"
  using step_data [of e c] by auto

lemma run_data_unsuccessful:
  "\<not> list_ex successful es \<Longrightarrow> data (view (run es c)) = data (view c)"
  unfolding run_def by (induction es arbitrary: c) (simp_all add: step_data_unsuccessful)

lemma run_data_kept: "data (view c) \<noteq> None \<Longrightarrow> data (view (run es c)) \<noteq> None"
  unfolding run_def
  by (induction es arbitrary: c) (simp_all add: step_data_kept del: not_None_eq)

lemma mount_data: "data (view mount) = None"
  by (simp add: mount_def autoRefresh_effect_def call_fetchData_def setInterval_def
      fetchData_begin_def initial_view_def)

lemma settle_success_data:
  "settled c < length (started c) \<Longrightarrow> success d \<Longrightarrow>
   data (view (step (Settles (Resolved d)) c)) = Some d"
  by (simp add: step_def fetchData_settle_def)

text \<open>
  C9. \<open>data\<close> is none when the component is mounted and stays none over every run
  of events in which no request settles with a \<open>success: true\<close> payload; every event
  (a click, the interval, time passing, a request settling either way) leaves \<open>data\<close>
  as it was or, when it is a request settling with a \<open>success: true\<close> payload, makes
  it that whole payload; such a settling of a request in flight does make it that
  payload; and once \<open>data\<close> is set, no run of events resets it to none.
\<close>

theorem data_replaced_wholesale:
  "data (view mount) = None \<and>
   (\<not> list_ex successful es \<longrightarrow> data (view (run es mount)) = None) \<and>
   (data (view (step e c)) = data (view c) \<or>
    (\<exists>d. e = Settles (Resolved d) \<and> success d \<and> data (view (step e c)) = Some d)) \<and>
   (settled c < length (started c) \<and> success d \<longrightarrow>
      data (view (step (Settles (Resolved d)) c)) = Some d) \<and>
   (data (view c) \<noteq> None \<longrightarrow> data (view (run es c)) \<noteq> None)"
  using mount_data run_data_unsuccessful [of es mount] step_data [of e c]
    settle_success_data [of c d] run_data_kept [of c es]
  by simp

theorem data_replaced_wholesale_witness:
  "data (view (run [ClickAuto, ClickFetch, Settles (Rejected network_error)] mount)) = None \<and>
   data (view (step (Settles (Resolved one_market_snapshot)) mount)) =
     Some one_market_snapshot \<and>
   data (view (run [ClickFetch, Settles (Rejected network_error), ClickAuto]
     (step (Settles (Resolved one_market_snapshot)) mount))) \<noteq> None"
proof -
  let ?c = "step (Settles (Resolved one_market_snapshot)) mount"
  have pending: "settled mount < length (started mount)"
    by (simp add: mount_def autoRefresh_effect_def call_fetchData_def setInterval_def
        fetchData_begin_def initial_view_def)
  have s: "success one_market_snapshot" by (simp add: one_market_snapshot_def)
  have none: "\<not> list_ex successful [ClickAuto, ClickFetch, Settles (Rejected network_error)]"
    by simp
  from data_replaced_wholesale
    [of "[ClickAuto, ClickFetch, Settles (Rejected network_error)]"
      "Settles (Resolved one_market_snapshot)" mount one_market_snapshot]
    none pending s
  have a: "data (view (run [ClickAuto, ClickFetch, Settles (Rejected network_error)] mount)) = None"
    and b: "data (view ?c) = Some one_market_snapshot"
    by simp_all
  from b have "data (view ?c) \<noteq> None" by simp
  with data_replaced_wholesale
    [of "[ClickFetch, Settles (Rejected network_error), ClickAuto]" ClickFetch ?c]
  have "data (view (run [ClickFetch, Settles (Rejected network_error), ClickAuto] ?c)) \<noteq> None"
    by blast
  with a b show ?thesis by simp
qed

section \<open>The rendered table\<close>

lemma those_map_nth:
  "those (map f xs) = Some ys \<Longrightarrow>
   length ys = length xs \<and> (\<forall>i<length xs. f (xs ! i) = Some (ys ! i))"
proof (induction xs arbitrary: ys)
  case Nil
  then show ?case by simp
next
  case (Cons x xs)
  from Cons.prems obtain y zs where y: "f x = Some y" and zs: "those (map f xs) = Some zs"
    and ys: "ys = y # zs"
    by (auto split: option.splits)
  from Cons.IH [OF zs] y ys show ?case
    by (auto simp: nth_Cons split: nat.splits)
qed

lemma those_map_total:
  "(\<And>x. x \<in> set xs \<Longrightarrow> \<exists>y. f x = Some y) \<Longrightarrow> \<exists>ys. those (map f xs) = Some ys"
proof (induction xs)
  case Nil
  then show ?case by simp
next
  case (Cons x xs)
  from Cons.prems [of x] obtain y where "f x = Some y" by auto
  moreover from Cons.IH Cons.prems obtain ys where "those (map f xs) = Some ys" by auto
  ultimately show ?case by simp
qed

lemma market_line_change:
  "\<exists>l. market_line sh index m = Some (Market l) \<and>
       fst (change_badge l) = getPriceChangeBadgeVariant (price_change_24h m) \<and>
       snd (change_badge l) =
         (if price_change_24h m > 0 then ''+'' else '''') @
         toFixed_text sh (price_change_24h m) 2 @ ''%''"
proof -
  obtain mp where mp: "formatNumber sh (mark_price m) 2 = Some mp"
    using formatNumber_total [of 2 sh "mark_price m"] by auto
  obtain oi where oi: "formatNumber sh (open_interest m) 2 = Some oi"
    using formatNumber_total [of 2 sh "open_interest m"] by auto
  obtain dv where dv: "formatNumber sh (day_volume m) 2 = Some dv"
    using formatNumber_total [of 2 sh "day_volume m"] by auto
  show ?thesis
    by (simp add: market_line_def mp oi dv formatPercent_Some toFixed_Some)
qed

lemma change_text_plus:
  "hd ((if 0 < pc then ''+'' else '''') @ toFixed_text sh pc 2 @ ''%'') = CHR ''+'' \<longleftrightarrow> 0 < pc"
  using toFixed_text_no_plus [of sh pc 2] toFixed_text_last [of sh pc 2]
  by (cases "0 < pc") simp_all

text \<open>
  Rendering the dashboard throws nothing: every call of \<open>toFixed\<close> asks for 2 or 4
  digits.
\<close>

lemma table_body_total: "\<exists>body. table_body sh d = Some body"
proof (cases "Option.bind d markets")
  case None
  then show ?thesis by (simp add: table_body_def)
next
  case (Some ms)
  have "\<exists>ys. those (map (\<lambda>(index, market). market_line sh index market) (enumerate 0 ms)) = Some ys"
  proof (rule those_map_total)
    fix x assume "x \<in> set (enumerate 0 ms)"
    from market_line_change [of sh "fst x" "snd x"]
    show "\<exists>y. (case x of (index, market) \<Rightarrow> market_line sh index market) = Some y"
      by (auto simp: case_prod_beta)
  qed
  with Some show ?thesis by (simp add: table_body_def)
qed

lemma render_dashboard_total: "\<exists>v. render_dashboard sh s = Some (Dashboard v)"
proof -
  obtain body where body: "table_body sh (data s) = Some body"
    using table_body_total by blast
  show ?thesis
    by (cases "Option.bind (data s) highest_funding_rate")
      (simp_all add: render_dashboard_def body formatPercent_Some)
qed

lemma render_without_error:
  assumes "\<not> loading s" and "error s = None"
  shows "\<exists>v. render sh s = Some (Dashboard v)"
  using assms render_dashboard_total [of sh s] by (simp add: render_def truthy_def)

lemma render_dashboard_lines:
  assumes "render sh s = Some (Dashboard v)"
  shows "table_body sh (data s) = Some (table_lines v)"
  using assms
  by (auto simp: render_def render_error_def render_dashboard_def
      split: if_splits option.splits Option.bind_splits)

text \<open>
  C10. In a rendered dashboard the table has one line for each market, in order, and
  the text of the 24h-change badge of a line is a \<open>+\<close> exactly when
  \<open>price_change_24h > 0\<close> (none for zero and for negative values), then
  \<open>price_change_24h\<close> itself printed by \<open>toFixed\<close> with two decimals (not multiplied by
  100, as \<open>formatPercent\<close> would), then \<open>%\<close>; the text begins with \<open>+\<close> exactly for
  the positive values.
\<close>

theorem change_cell_plus_sign:
  assumes "render sh s = Some (Dashboard v)" and "data s = Some d" and "markets d = Some ms"
    and "i < length ms"
  shows "length (table_lines v) = length ms \<and>
         (\<exists>l. table_lines v ! i = Market l \<and>
              snd (change_badge l) =
                (if price_change_24h (ms ! i) > 0 then ''+'' else '''') @
                toFixed_text sh (price_change_24h (ms ! i)) 2 @ ''%'' \<and>
              (hd (snd (change_badge l)) = CHR ''+'') = (price_change_24h (ms ! i) > 0))"
proof -
  let ?f = "\<lambda>(index, market). market_line sh index market"
  have "those (map ?f (enumerate 0 ms)) = Some (table_lines v)"
    using render_dashboard_lines [OF assms(1)] assms(2,3) by (simp add: table_body_def)
  from those_map_nth [OF this] assms(4)
  have len: "length (table_lines v) = length ms"
    and line: "market_line sh i (ms ! i) = Some (table_lines v ! i)"
    by (simp_all add: nth_enumerate_eq)
  from market_line_change [of sh i "ms ! i"] line change_text_plus [of "price_change_24h (ms ! i)" sh]
  show ?thesis using len by auto
qed

theorem change_cell_plus_sign_witness:
  "\<exists>v l. render host_shortest
            (fetchData_settle (Resolved one_market_snapshot) 1250 (fetchData_begin initial_view)) =
            Some (Dashboard v) \<and>
          table_lines v ! 0 = Market l \<and> snd (change_badge l) = ''+2.50%''"
proof -
  let ?s = "fetchData_settle (Resolved one_market_snapshot) 1250 (fetchData_begin initial_view)"
  have st: "data ?s = Some one_market_snapshot" "\<not> loading ?s" "error ?s = None"
    by (simp_all add: fetchData_settle_def fetchData_begin_def one_market_snapshot_def)
  from render_without_error [OF st(2,3)] obtain v
    where v: "render host_shortest ?s = Some (Dashboard v)" by blast
  have ms: "markets one_market_snapshot = Some [btc_row]"
    by (simp add: one_market_snapshot_def)
  have i: "0 < length [btc_row]" by simp
  have pc: "price_change_24h btc_row = 5 / 2" by (simp add: btc_row_def)
  have below: "\<bar>nearest_double (5 / 2)\<bar> < 10 ^ 21" by code_simp
  have digits: "fixed_notation (5 / 2) 2 = ''2.50''" by code_simp
  have fixed: "toFixed_text host_shortest (5 / 2) 2 = ''2.50''"
    unfolding toFixed_text_fixed [OF below] digits ..
  from change_cell_plus_sign [OF v st(1) ms i] obtain l
    where "table_lines v ! 0 = Market l" and "snd (change_badge l) = ''+2.50%''"
    by (auto simp: pc fixed)
  with v show ?thesis by blast
qed

text \<open>
  C1 asks for the placeholder row when a fetched snapshot has \<open>success = true\<close> and
  \<open>markets\<close> is the empty list. What the component renders then: the dashboard (neither
  the loading nor the error screen) with a table body of no lines at all, so without
  the placeholder row, because the empty array that \<open>map\<close> returns is truthy and
  \<open>||\<close> never reaches the placeholder.
\<close>

theorem empty_markets_no_placeholder:
  assumes "success d" and "markets d = Some []"
  shows "\<exists>v. render sh (fetchData_settle (Resolved d) now (fetchData_begin s)) =
               Some (Dashboard v) \<and>
             table_lines v = [] \<and> no_markets_row \<notin> set (table_lines v)"
  using assms
  by (cases "highest_funding_rate d")
    (simp_all add: render_def render_dashboard_def fetchData_settle_def fetchData_begin_def
      truthy_def table_body_def formatPercent_Some)

theorem empty_markets_no_placeholder_witness:
  "success empty_snapshot \<and> markets empty_snapshot = Some [] \<and>
   (\<exists>v. render host_shortest
          (fetchData_settle (Resolved empty_snapshot) 1250 (fetchData_begin initial_view)) =
          Some (Dashboard v) \<and> table_lines v = [])"
proof -
  have s: "success empty_snapshot" and m: "markets empty_snapshot = Some []"
    by (simp_all add: empty_snapshot_def)
  from empty_markets_no_placeholder [OF s m, of host_shortest 1250 initial_view] s m
  show ?thesis by blast
qed

text \<open>The placeholder row is the body when the payload has no \<open>markets\<close> key.\<close>

lemma missing_markets_placeholder:
  assumes "success d" and "markets d = None"
  shows "\<exists>v. render sh (fetchData_settle (Resolved d) now (fetchData_begin s)) =
               Some (Dashboard v) \<and>
             table_lines v = [no_markets_row]"
  using assms
  by (cases "highest_funding_rate d")
    (simp_all add: render_def render_dashboard_def fetchData_settle_def fetchData_begin_def
      truthy_def table_body_def formatPercent_Some)

end
